theory Spec2Isabelle
  imports Complex_Main "HOL-Library.Word"
begin

section \<open>Picking trainer: data model\<close>

text \<open>
  The module \<^verbatim>\<open>picking-trainer-logic.js\<close> works on plain JavaScript objects. Each
  kind of object is a record here; a field that may be absent (\<^verbatim>\<open>undefined\<close>) or
  \<^verbatim>\<open>null\<close> is an \<open>option\<close>, with \<open>None\<close> for both, since the source only ever
  tests such fields with \<^verbatim>\<open>??\<close>, \<^verbatim>\<open>||\<close> and \<^verbatim>\<open>===\<close> against a present value.
  The records are extensible: the \<open>more\<close> part of a \<open>_scheme\<close> type carries the
  display fields the module never reads, and the object spread \<^verbatim>\<open>{...x, f: v}\<close> is the
  record update \<open>x\<lparr>f := v\<rparr>\<close>, which keeps every other field and the \<open>more\<close> part.

  Numbers are integers: stock counts, scores, answer counts and time limits. A stock
  can be negative (nothing in the module prevents it, and it tests \<^verbatim>\<open>> 0\<close>, not
  \<^verbatim>\<open>!== 0\<close>). Loop bounds (\<^verbatim>\<open>count\<close>, \<^verbatim>\<open>slipCount\<close>, \<^verbatim>\<open>itemsPerSlip\<close>) are
  natural numbers.
\<close>

record product =
  code :: string
  stock :: "int option"

record historyEntry =
  userId :: string
  mode :: "string option"
  score :: int
  totalAnswered :: int
  timeLimit :: "int option"

text \<open>The optional fourth argument of \<^verbatim>\<open>getBestScore\<close>, e.g. \<^verbatim>\<open>{ timeLimit: 60 }\<close>.\<close>

record options =
  timeLimit :: "int option"

record 'a task =
  product :: "'a product_scheme"
  quantity :: int
  completed :: bool
  found :: "bool option"

record 'a slip =
  slipId :: string
  slipNumber :: nat
  tasks :: "'a task list"
  completed :: bool

text \<open>Effective stock, \<^verbatim>\<open>p.stock ?? 99\<close>.\<close>

definition effectiveStock :: "'a product_scheme \<Rightarrow> int" where
  "effectiveStock p = (case stock p of None \<Rightarrow> 99 | Some s \<Rightarrow> s)"

section \<open>Data management\<close>

text \<open>
  \<^verbatim>\<open>h.mode || 'normal'\<close>: the left operand is kept when it is truthy. A string is
  truthy unless it is empty; \<^verbatim>\<open>undefined\<close> and \<^verbatim>\<open>null\<close> are falsy.
\<close>

definition modeOrNormal :: "string option \<Rightarrow> string" where
  "modeOrNormal m = (case m of None \<Rightarrow> ''normal'' | Some s \<Rightarrow> if s = [] then ''normal'' else s)"

text \<open>\<^verbatim>\<open>history.map(h => ({ ...h, mode: h.mode || 'normal' }))\<close>\<close>

definition migrateHistory :: "'a historyEntry_scheme list \<Rightarrow> 'a historyEntry_scheme list" where
  "migrateHistory history = map (\<lambda>h. h\<lparr>mode := Some (modeOrNormal (mode h))\<rparr>) history"

text \<open>\<^verbatim>\<open>products.map(p => ({ ...p, stock: p.stock ?? 99 }))\<close>\<close>

definition migrateProducts :: "'a product_scheme list \<Rightarrow> 'a product_scheme list" where
  "migrateProducts products = map (\<lambda>p. p\<lparr>stock := Some (effectiveStock p)\<rparr>) products"

text \<open>
  \<^verbatim>\<open>if (history.length <= 500) return history; return history.slice(-500);\<close>
  A negative start of \<^verbatim>\<open>slice\<close> counts from the end, and is clamped at 0: the slice
  starts at index \<open>max (length - 500) 0\<close>, which is the truncating difference on \<open>nat\<close>.
\<close>

definition sliceFromEnd :: "nat \<Rightarrow> 'a list \<Rightarrow> 'a list" where
  "sliceFromEnd n xs = drop (length xs - n) xs"

definition trimHistory :: "'a list \<Rightarrow> 'a list" where
  "trimHistory history = (if length history \<le> 500 then history else sliceFromEnd 500 history)"

text \<open>
  What the specification says of \<^verbatim>\<open>migrateHistory\<close>, in its own words: an entry missing
  a \<open>mode\<close> is assigned \<open>normal\<close>, a present \<open>mode\<close> passes through.
\<close>

definition migrateHistorySpec :: "'a historyEntry_scheme list \<Rightarrow> 'a historyEntry_scheme list" where
  "migrateHistorySpec history =
     map (\<lambda>h. case mode h of None \<Rightarrow> h\<lparr>mode := Some ''normal''\<rparr> | Some m \<Rightarrow> h) history"

section \<open>Score query\<close>

text \<open>
  \<^verbatim>\<open>options && options.timeLimit\<close> as a condition: the argument is present, its
  \<^verbatim>\<open>timeLimit\<close> is present, and that number is truthy, that is, not \<open>0\<close>.
\<close>

definition timeLimitTruthy :: "options option \<Rightarrow> bool" where
  "timeLimitTruthy opts =
     (case opts of None \<Rightarrow> False
      | Some opt \<Rightarrow> (case options.timeLimit opt of None \<Rightarrow> False | Some t \<Rightarrow> t \<noteq> 0))"

text \<open>The value of \<^verbatim>\<open>options.timeLimit\<close> where \<^verbatim>\<open>options\<close> is present.\<close>

definition optionsTimeLimit :: "options option \<Rightarrow> int option" where
  "optionsTimeLimit opts = (case opts of None \<Rightarrow> None | Some opt \<Rightarrow> options.timeLimit opt)"

text \<open>
  \<^verbatim>\<open>Math.max(...xs)\<close>. With no argument JavaScript gives \<open>-Infinity\<close>, which is not an
  integer and is \<open>None\<close> here; \<^verbatim>\<open>getBestScore\<close> returns before it could call
  \<^verbatim>\<open>Math.max\<close> with none.
\<close>

definition mathMax :: "int list \<Rightarrow> int option" where
  "mathMax xs = (case xs of [] \<Rightarrow> None | y # ys \<Rightarrow> Some (fold max ys y))"

text \<open>The result \<open>None\<close> is \<^verbatim>\<open>null\<close>.\<close>

definition getBestScore ::
  "'a historyEntry_scheme list \<Rightarrow> string \<Rightarrow> string \<Rightarrow> options option \<Rightarrow> int option" where
  "getBestScore history uid md opts =
     (let filtered = filter (\<lambda>h. userId h = uid \<and> mode h = Some md) history in
      if md = ''timeAttack'' \<and> timeLimitTruthy opts then
        (let filtered2 = filter (\<lambda>h. historyEntry.timeLimit h = optionsTimeLimit opts) filtered in
         if length filtered2 = 0 then None else mathMax (map totalAnswered filtered2))
      else if length filtered = 0 then None
      else mathMax (map score filtered))"

text \<open>
  The reading of the specification: the time-attack branch is taken whenever a
  \<^verbatim>\<open>timeLimit\<close> is given, and each branch returns the maximum of its field over the
  matching entries, or \<^verbatim>\<open>null\<close> when there is none. \<open>bestOf f hs r\<close> says that \<open>r\<close>
  is this result for the field \<open>f\<close> and the matching entries \<open>hs\<close>.
\<close>

definition bestOf :: "('h \<Rightarrow> int) \<Rightarrow> 'h list \<Rightarrow> int option \<Rightarrow> bool" where
  "bestOf f hs r =
     (case r of None \<Rightarrow> hs = []
      | Some v \<Rightarrow> (\<exists>h \<in> set hs. f h = v) \<and> (\<forall>h \<in> set hs. f h \<le> v))"

definition getBestScoreSpec ::
  "'a historyEntry_scheme list \<Rightarrow> string \<Rightarrow> string \<Rightarrow> options option \<Rightarrow> int option \<Rightarrow> bool" where
  "getBestScoreSpec history uid md opts r =
     (case (if md = ''timeAttack'' then optionsTimeLimit opts else None) of
        Some t \<Rightarrow>
          bestOf totalAnswered
            (filter (\<lambda>h. userId h = uid \<and> mode h = Some md \<and> historyEntry.timeLimit h = Some t) history) r
      | None \<Rightarrow>
          bestOf score (filter (\<lambda>h. userId h = uid \<and> mode h = Some md) history) r)"

section \<open>The random source\<close>

text \<open>
  \<^verbatim>\<open>Math.random()\<close> returns a number \<open>u\<close> with \<open>0 \<le> u < 1\<close>. The outcomes of the
  successive calls are a sequence \<open>rnd\<close>, and every generator takes the position \<open>k\<close> of
  the next outcome and returns the position after its own calls. \<open>validRandom\<close> is the
  contract of \<^verbatim>\<open>Math.random\<close>. The model multiplies exactly. The floating-point
  product is rounded, but it stays below \<open>n\<close>, so its floor is an index from \<open>0\<close> to
  \<open>n - 1\<close> there as here, and every such index occurs for some outcome.
\<close>

definition validRandom :: "(nat \<Rightarrow> real) \<Rightarrow> bool" where
  "validRandom rnd = (\<forall>i. 0 \<le> rnd i \<and> rnd i < 1)"

text \<open>\<^verbatim>\<open>Math.floor(Math.random() * n)\<close>\<close>

definition randomIndex :: "real \<Rightarrow> nat \<Rightarrow> nat" where
  "randomIndex u n = nat \<lfloor>u * real n\<rfloor>"

text \<open>\<^verbatim>\<open>Math.floor(Math.random() * 3) + 1\<close>\<close>

definition randomQuantity :: "real \<Rightarrow> int" where
  "randomQuantity u = \<lfloor>u * 3\<rfloor> + 1"

section \<open>Task generation\<close>

text \<open>
  \<^verbatim>\<open>generateRandomTask(products)\<close>; \<open>None\<close> is \<^verbatim>\<open>null\<close>. The function reads
  \<^verbatim>\<open>products\<close> and writes nothing: its only effect is on the random source. For a
  valid random source the index is below \<open>length available\<close> (lemma
  \<open>randomIndex_less\<close>), so the element read exists.
\<close>

definition generateRandomTask ::
  "'a product_scheme list \<Rightarrow> (nat \<Rightarrow> real) \<Rightarrow> nat \<Rightarrow> 'a task option \<times> nat" where
  "generateRandomTask products rnd k =
     (let available = filter (\<lambda>p. effectiveStock p > 0) products in
      if length available = 0 then (None, k)
      else
        (let chosen = available ! randomIndex (rnd k) (length available);
             stk = effectiveStock chosen;
             qty = min (randomQuantity (rnd (k + 1))) stk
         in (Some \<lparr>product = chosen, quantity = qty, completed = False, found = None\<rparr>, k + 2)))"

text \<open>
  \<^verbatim>\<open>generateRandomTasks(products, count)\<close>: the loop body, which pushes a task that is
  not \<^verbatim>\<open>null\<close> (an object is always truthy), and the loop over \<open>i = 0, ..., count - 1\<close>.
\<close>

definition pushRandomTask ::
  "'a product_scheme list \<Rightarrow> (nat \<Rightarrow> real) \<Rightarrow> nat \<Rightarrow> 'a task list \<times> nat \<Rightarrow> 'a task list \<times> nat" where
  "pushRandomTask products rnd i st =
     (case generateRandomTask products rnd (snd st) of
        (None, k') \<Rightarrow> (fst st, k')
      | (Some t, k') \<Rightarrow> (fst st @ [t], k'))"

definition generateRandomTasks ::
  "'a product_scheme list \<Rightarrow> nat \<Rightarrow> (nat \<Rightarrow> real) \<Rightarrow> nat \<Rightarrow> 'a task list \<times> nat" where
  "generateRandomTasks products count rnd k = fold (pushRandomTask products rnd) [0..<count] ([], k)"

section \<open>Slip generation\<close>

text \<open>
  The ledger \<^verbatim>\<open>remainingStock\<close> is a plain object used as a dictionary from product
  code to number: a map. One key of a plain object is not a slot of its own:
  \<^verbatim>\<open>obj['__proto__'] = n\<close> with a number \<open>n\<close> is ignored, and \<^verbatim>\<open>obj['__proto__']\<close>
  reads the prototype object, which is not nullish (so \<^verbatim>\<open>??\<close> keeps it) and which
  \<^verbatim>\<open>> 0\<close> rejects. So a product with that code gets no entry and is never in stock.
  Every other code gets its own entry when \<^verbatim>\<open>generateSlips\<close> initialises the ledger,
  the only caller of \<^verbatim>\<open>generateTaskWithStock\<close>: an own entry shadows whatever name a
  plain object inherits (\<^verbatim>\<open>toString\<close>, \<^verbatim>\<open>constructor\<close>, ...), and the fallback of
  \<^verbatim>\<open>??\<close> is for a code without entry.
\<close>

type_synonym ledger = "string \<rightharpoonup> int"

definition protoKey :: string where
  "protoKey = ''__proto__''"

text \<open>\<^verbatim>\<open>remainingStock[c] = v\<close>\<close>

definition ledgerSet :: "ledger \<Rightarrow> string \<Rightarrow> int \<Rightarrow> ledger" where
  "ledgerSet rs c v = (if c = protoKey then rs else rs(c \<mapsto> v))"

text \<open>\<^verbatim>\<open>remainingStock[p.code] ?? (p.stock ?? 99)\<close>, for a code other than \<open>protoKey\<close>.\<close>

definition remaining :: "ledger \<Rightarrow> 'a product_scheme \<Rightarrow> int" where
  "remaining rs p = (case rs (code p) of None \<Rightarrow> effectiveStock p | Some v \<Rightarrow> v)"

text \<open>\<^verbatim>\<open>(remainingStock[p.code] ?? (p.stock ?? 99)) > 0\<close>\<close>

definition inStock :: "ledger \<Rightarrow> 'a product_scheme \<Rightarrow> bool" where
  "inStock rs p = (code p \<noteq> protoKey \<and> remaining rs p > 0)"

text \<open>
  \<^verbatim>\<open>generateTaskWithStock(products, remainingStock, usedCodes)\<close>. The ledger is updated
  in place by the source, and returned here. \<^verbatim>\<open>usedCodes\<close> is optional.
\<close>

definition generateTaskWithStock ::
  "'a product_scheme list \<Rightarrow> ledger \<Rightarrow> string set option \<Rightarrow> (nat \<Rightarrow> real) \<Rightarrow> nat
     \<Rightarrow> 'a task option \<times> ledger \<times> nat" where
  "generateTaskWithStock products rs usedCodes rnd k =
     (let available = filter (inStock rs) products;
          available = (case usedCodes of None \<Rightarrow> available
                       | Some used \<Rightarrow> filter (\<lambda>p. code p \<notin> used) available)
      in
      if length available = 0 then (None, rs, k)
      else
        (let chosen = available ! randomIndex (rnd k) (length available);
             stk = remaining rs chosen;
             qty = min (randomQuantity (rnd (k + 1))) stk
         in (Some \<lparr>product = chosen, quantity = qty, completed = False, found = None\<rparr>,
             ledgerSet rs (code chosen) (stk - qty), k + 2)))"

text \<open>\<^verbatim>\<open>products.forEach(p => { remainingStock[p.code] = p.stock ?? 99; })\<close> on \<^verbatim>\<open>{}\<close>\<close>

definition initialLedger :: "'a product_scheme list \<Rightarrow> ledger" where
  "initialLedger products = fold (\<lambda>p rs. ledgerSet rs (code p) (effectiveStock p)) products Map.empty"

text \<open>
  The state of the inner loop: the slip's tasks, its \<^verbatim>\<open>usedCodes\<close>, the ledger and the
  position in the random source.
\<close>

type_synonym 'a slipState = "'a task list \<times> string set \<times> ledger \<times> nat"

definition addSlipTask ::
  "'a product_scheme list \<Rightarrow> (nat \<Rightarrow> real) \<Rightarrow> nat \<Rightarrow> 'a slipState \<Rightarrow> 'a slipState" where
  "addSlipTask products rnd j st =
     (case st of (ts, used, rs, k) \<Rightarrow>
        (case generateTaskWithStock products rs (Some used) rnd k of
           (None, rs', k') \<Rightarrow> (ts, used, rs', k')
         | (Some t, rs', k') \<Rightarrow> (ts @ [t], insert (code (product t)) used, rs', k')))"

definition slipTasks ::
  "'a product_scheme list \<Rightarrow> nat \<Rightarrow> (nat \<Rightarrow> real) \<Rightarrow> ledger \<Rightarrow> nat \<Rightarrow> 'a slipState" where
  "slipTasks products itemsPerSlip rnd rs k =
     fold (addSlipTask products rnd) [0..<itemsPerSlip] ([], {}, rs, k)"

text \<open>The decimal digits of a loop index, for \<^verbatim>\<open>'slip-' + i\<close>.\<close>

fun decimal :: "nat \<Rightarrow> string" where
  "decimal n =
     (if n < 10 then [''0123456789'' ! n]
      else decimal (n div 10) @ [''0123456789'' ! (n mod 10)])"

declare decimal.simps [simp del]

definition addSlip ::
  "'a product_scheme list \<Rightarrow> nat \<Rightarrow> (nat \<Rightarrow> real) \<Rightarrow> nat \<Rightarrow> 'a slip list \<times> ledger \<times> nat
     \<Rightarrow> 'a slip list \<times> ledger \<times> nat" where
  "addSlip products itemsPerSlip rnd i st =
     (case st of (slips, rs, k) \<Rightarrow>
        (case slipTasks products itemsPerSlip rnd rs k of
           (ts, used, rs', k') \<Rightarrow>
             (slips @ [\<lparr>slipId = ''slip-'' @ decimal i, slipNumber = i + 1, tasks = ts,
                        completed = False\<rparr>], rs', k')))"

text \<open>
  The whole run of \<^verbatim>\<open>generateSlips\<close>: the slips it returns, with the final ledger
  (local to the source function) and the position in the random source.
\<close>

definition generateSlipsRun ::
  "'a product_scheme list \<Rightarrow> nat \<Rightarrow> nat \<Rightarrow> (nat \<Rightarrow> real) \<Rightarrow> nat \<Rightarrow> 'a slip list \<times> ledger \<times> nat" where
  "generateSlipsRun products slipCount itemsPerSlip rnd k =
     fold (addSlip products itemsPerSlip rnd) [0..<slipCount] ([], initialLedger products, k)"

definition generateSlips ::
  "'a product_scheme list \<Rightarrow> nat \<Rightarrow> nat \<Rightarrow> (nat \<Rightarrow> real) \<Rightarrow> nat \<Rightarrow> 'a slip list" where
  "generateSlips products slipCount itemsPerSlip rnd k =
     fst (generateSlipsRun products slipCount itemsPerSlip rnd k)"

text \<open>
  All tasks of a list of slips in the order of their generation
  (\<^verbatim>\<open>slips.flatMap(slip => slip.tasks)\<close>), and the total quantity a list of tasks
  takes of the product code \<open>c\<close>.
\<close>

definition allTasks :: "'a slip list \<Rightarrow> 'a task list" where
  "allTasks slips = concat (map tasks slips)"

definition pickedQuantity :: "string \<Rightarrow> 'a task list \<Rightarrow> int" where
  "pickedQuantity c ts = sum_list (map quantity (filter (\<lambda>t. code (product t) = c) ts))"

section \<open>Escaping markup\<close>

text \<open>
  \<^verbatim>\<open>escapeHtml\<close> is three calls of the browser's document interface:
  \<^verbatim>\<open>const div = document.createElement('div'); div.textContent = str; return div.innerHTML;\<close>
  These are built-ins of the platform, like \<^verbatim>\<open>Array.prototype.filter\<close> or
  \<^verbatim>\<open>Math.max\<close>, and are modelled as the DOM and HTML standards define them, for the
  nodes that can arise here: an element whose children are text nodes.

  A JavaScript string is a sequence of 16-bit code units. \<open>units\<close> writes an ASCII
  literal as such a sequence.
\<close>

type_synonym codeUnit = "16 word"

definition units :: "string \<Rightarrow> codeUnit list" where
  "units s = map of_char s"

datatype node = Text "codeUnit list"

record element =
  localName :: string
  childNodes :: "node list"

text \<open>
  \<^verbatim>\<open>document.createElement(name)\<close>: an element without children.
  \<^verbatim>\<open>el.textContent = s\<close>: the children are replaced by one text node holding \<open>s\<close>, or by
  nothing when \<open>s\<close> is the empty string.
\<close>

definition createElement :: "string \<Rightarrow> element" where
  "createElement name = \<lparr>localName = name, childNodes = []\<rparr>"

definition setTextContent :: "element \<Rightarrow> codeUnit list \<Rightarrow> element" where
  "setTextContent el s = el\<lparr>childNodes := (if s = [] then [] else [Text s])\<rparr>"

text \<open>
  The standard's algorithm for escaping a string, outside attribute mode: replace every
  \<^verbatim>\<open>&\<close> by \<^verbatim>\<open>&amp;\<close>, then every U+00A0 by \<^verbatim>\<open>&nbsp;\<close>, then every \<^verbatim>\<open><\<close> by
  \<^verbatim>\<open>&lt;\<close>, then every \<^verbatim>\<open>>\<close> by \<^verbatim>\<open>&gt;\<close>. The quotation mark is replaced in attribute
  mode only, which the serialisation of a text node does not use.
\<close>

definition replaceUnit :: "codeUnit \<Rightarrow> codeUnit list \<Rightarrow> codeUnit list \<Rightarrow> codeUnit list" where
  "replaceUnit u r s = concat (map (\<lambda>x. if x = u then r else [x]) s)"

definition escapeString :: "codeUnit list \<Rightarrow> codeUnit list" where
  "escapeString s =
     replaceUnit 0x3E (units ''&gt;'')
       (replaceUnit 0x3C (units ''&lt;'')
          (replaceUnit 0xA0 (units ''&nbsp;'')
             (replaceUnit 0x26 (units ''&amp;'') s)))"

text \<open>
  \<^verbatim>\<open>el.innerHTML\<close>: the serialisation of the children. A text node is appended escaped,
  unless its parent is one of the elements whose text is raw.
\<close>

definition rawTextElements :: "string list" where
  "rawTextElements =
     [''style'', ''script'', ''xmp'', ''iframe'', ''noembed'', ''noframes'', ''plaintext'',
      ''noscript'']"

definition serializeChild :: "element \<Rightarrow> node \<Rightarrow> codeUnit list" where
  "serializeChild parent n =
     (case n of Text d \<Rightarrow> if localName parent \<in> set rawTextElements then d else escapeString d)"

definition innerHTML :: "element \<Rightarrow> codeUnit list" where
  "innerHTML el = concat (map (serializeChild el) (childNodes el))"

definition escapeHtml :: "codeUnit list \<Rightarrow> codeUnit list" where
  "escapeHtml str = innerHTML (setTextContent (createElement ''div'') str)"

text \<open>
  What the escaping does to one code unit, and the decoding of the four character
  references it produces (the reading of the result as the text of a markup document).
\<close>

definition escapeUnit :: "codeUnit \<Rightarrow> codeUnit list" where
  "escapeUnit u =
     (if u = 0x26 then units ''&amp;''
      else if u = 0x3C then units ''&lt;''
      else if u = 0x3E then units ''&gt;''
      else if u = 0xA0 then units ''&nbsp;''
      else [u])"

fun decodeRefs :: "codeUnit list \<Rightarrow> codeUnit list" where
  "decodeRefs [] = []"
| "decodeRefs (u # rest) =
     (if u = 0x26 \<and> take 4 rest = units ''amp;'' then 0x26 # decodeRefs (drop 4 rest)
      else if u = 0x26 \<and> take 3 rest = units ''lt;'' then 0x3C # decodeRefs (drop 3 rest)
      else if u = 0x26 \<and> take 3 rest = units ''gt;'' then 0x3E # decodeRefs (drop 3 rest)
      else if u = 0x26 \<and> take 5 rest = units ''nbsp;'' then 0xA0 # decodeRefs (drop 5 rest)
      else u # decodeRefs rest)"

section \<open>Invariants of slip generation\<close>

text \<open>
  The candidate list of one call: the products in stock whose code the slip has not used.
\<close>

definition candidates :: "'a product_scheme list \<Rightarrow> ledger \<Rightarrow> string set \<Rightarrow> 'a product_scheme list" where
  "candidates products rs used = filter (\<lambda>p. code p \<notin> used) (filter (inStock rs) products)"

text \<open>The product codes of a list of tasks, in order.\<close>

definition taskCodes :: "'a task list \<Rightarrow> string list" where
  "taskCodes ts = map (\<lambda>t. code (product t)) ts"

text \<open>
  The invariant of the inner loop: \<^verbatim>\<open>usedCodes\<close> holds exactly the codes of the slip's
  tasks, and no code occurs twice among them.
\<close>

definition slipInv :: "'a slipState \<Rightarrow> bool" where
  "slipInv st = (case st of (ts, used, rs, k) \<Rightarrow>
     used = set (taskCodes ts) \<and> distinct (taskCodes ts))"

text \<open>
  The invariant of a run over the products \<open>ps\<close>, for the tasks \<open>ts\<close> generated so far
  and the ledger \<open>rs\<close>: every entry of the ledger is what the product started with less
  what the tasks took, none is negative, and every task took a positive quantity of a
  product that has an entry.
\<close>

definition ledgerInv :: "'a product_scheme list \<Rightarrow> 'a task list \<Rightarrow> ledger \<Rightarrow> bool" where
  "ledgerInv ps ts rs \<longleftrightarrow>
     (\<forall>c. rs c = (case initialLedger ps c of None \<Rightarrow> None
                  | Some v \<Rightarrow> Some (v - pickedQuantity c ts)))
   \<and> (\<forall>c v. rs c = Some v \<longrightarrow> 0 \<le> v)
   \<and> (\<forall>t \<in> set ts. 1 \<le> quantity t \<and> initialLedger ps (code (product t)) \<noteq> None)"

text \<open>
  The ledger invariant inside a slip, after the tasks \<open>pre\<close> of the earlier slips, and
  between two slips.
\<close>

definition slipLedgerInv :: "'a product_scheme list \<Rightarrow> 'a task list \<Rightarrow> 'a slipState \<Rightarrow> bool" where
  "slipLedgerInv ps pre st = (case st of (ts, used, rs, k) \<Rightarrow> ledgerInv ps (pre @ ts) rs)"

definition runLedgerInv :: "'a product_scheme list \<Rightarrow> 'a slip list \<times> ledger \<times> nat \<Rightarrow> bool" where
  "runLedgerInv ps st = (case st of (slips, rs, k) \<Rightarrow> ledgerInv ps (allTasks slips) rs)"

section \<open>Example inputs\<close>

definition exampleHistory :: "historyEntry list" where
  "exampleHistory =
     [\<lparr>userId = ''u1'', mode = None, score = 1, totalAnswered = 2, timeLimit = None\<rparr>,
      \<lparr>userId = ''u2'', mode = Some ''timeAttack'', score = 3, totalAnswered = 4, timeLimit = Some 60\<rparr>,
      \<lparr>userId = ''u3'', mode = Some '''', score = 5, totalAnswered = 6, timeLimit = None\<rparr>]"

definition exampleProducts :: "product list" where
  "exampleProducts =
     [\<lparr>code = ''A-1'', stock = None\<rparr>, \<lparr>code = ''B-2'', stock = Some 0\<rparr>,
      \<lparr>code = ''C-3'', stock = Some 5\<rparr>]"

definition exampleScores :: "historyEntry list" where
  "exampleScores =
     [\<lparr>userId = ''u1'', mode = Some ''timeAttack'', score = 8, totalAnswered = 12, timeLimit = Some 60\<rparr>,
      \<lparr>userId = ''u1'', mode = Some ''timeAttack'', score = 9, totalAnswered = 10, timeLimit = Some 60\<rparr>,
      \<lparr>userId = ''u1'', mode = Some ''timeAttack'', score = 20, totalAnswered = 30, timeLimit = Some 120\<rparr>,
      \<lparr>userId = ''u2'', mode = Some ''timeAttack'', score = 50, totalAnswered = 60, timeLimit = Some 60\<rparr>,
      \<lparr>userId = ''u1'', mode = Some ''normal'', score = 7, totalAnswered = 7, timeLimit = None\<rparr>]"

definition zeroLimitHistory :: "historyEntry list" where
  "zeroLimitHistory =
     [\<lparr>userId = ''u1'', mode = Some ''timeAttack'', score = 3, totalAnswered = 5, timeLimit = Some 0\<rparr>]"

definition soldOut :: "product list" where
  "soldOut = [\<lparr>code = ''B-2'', stock = Some 0\<rparr>, \<lparr>code = ''D-4'', stock = Some (- 2)\<rparr>]"

text \<open>A random source whose every outcome is \<open>1/2\<close>.\<close>

definition halves :: "nat \<Rightarrow> real" where
  "halves i = 1 / 2"

definition negativeStock :: "product list" where
  "negativeStock = [\<lparr>code = ''D-4'', stock = Some (- 2)\<rparr>]"

definition duplicateCodes :: "product list" where
  "duplicateCodes =
     [\<lparr>code = ''A-1'', stock = Some 3\<rparr>, \<lparr>code = ''A-1'', stock = Some 4\<rparr>,
      \<lparr>code = ''C-3'', stock = Some 5\<rparr>]"

text \<open>The specification's example, \<^verbatim>\<open><b>"x"</b>\<close>, and a string of a single quotation mark.\<close>

definition specExample :: "codeUnit list" where
  "specExample = units (''<b>'' @ [CHR 0x22] @ ''x'' @ [CHR 0x22] @ ''</b>'')"

definition quotationMark :: "codeUnit list" where
  "quotationMark = [0x22]"

text \<open>
  The claim on the result of \<^verbatim>\<open>escapeHtml\<close>, in the specification's words: no literal
  \<^verbatim>\<open><\<close>, no literal \<^verbatim>\<open>>\<close> and no unescaped quote character.
\<close>

definition noMarkupCharacters :: "codeUnit list \<Rightarrow> bool" where
  "noMarkupCharacters r \<longleftrightarrow>
     0x3C \<notin> set r \<and> 0x3E \<notin> set r \<and> 0x22 \<notin> set r \<and> 0x27 \<notin> set r"

section \<open>Properties of the data management functions\<close>

lemma modeOrNormal_idem: "modeOrNormal (Some (modeOrNormal m)) = modeOrNormal m"
  by (simp add: modeOrNormal_def split: option.splits)

lemma modeOrNormal_nonempty: "m \<noteq> None \<Longrightarrow> m \<noteq> Some [] \<Longrightarrow> Some (modeOrNormal m) = m"
  by (auto simp: modeOrNormal_def split: option.splits)

lemma modeOrNormal_falsy: "m = None \<or> m = Some [] \<Longrightarrow> modeOrNormal m = ''normal''"
  by (auto simp: modeOrNormal_def)

text \<open>
  Claim C3, as stated, fails: an entry whose \<open>mode\<close> is present but is the empty string
  does not pass through unchanged; \<^verbatim>\<open>||\<close> replaces it by \<open>normal\<close>.
\<close>

theorem migrateHistory_empty_mode_counterexample:
  "mode \<lparr>userId = ''u1'', mode = Some '''', score = 7, totalAnswered = 9, timeLimit = None\<rparr> \<noteq> None
   \<and> map mode (migrateHistory
        [\<lparr>userId = ''u1'', mode = Some '''', score = 7, totalAnswered = 9, timeLimit = None\<rparr>])
       = [Some ''normal'']
   \<and> migrateHistory
        [\<lparr>userId = ''u1'', mode = Some '''', score = 7, totalAnswered = 9, timeLimit = None\<rparr>]
     \<noteq> migrateHistorySpec
        [\<lparr>userId = ''u1'', mode = Some '''', score = 7, totalAnswered = 9, timeLimit = None\<rparr>]"
  by (simp add: migrateHistory_def migrateHistorySpec_def modeOrNormal_def)

text \<open>
  Claim C3, amended: \<open>migrateHistory\<close> returns a sequence of the same length in which
  exactly the entries whose \<open>mode\<close> is missing or the empty string are assigned the
  mode \<open>normal\<close>; every non-empty \<open>mode\<close> and every other field of every entry
  (the undeclared ones too) pass through unchanged.
\<close>

theorem migrateHistory_amended:
  "length (migrateHistory history) = length history
   \<and> (\<forall>i < length history.
        (mode (history ! i) = None \<or> mode (history ! i) = Some ''''
           \<longrightarrow> mode (migrateHistory history ! i) = Some ''normal'')
      \<and> (mode (history ! i) \<noteq> None \<and> mode (history ! i) \<noteq> Some ''''
           \<longrightarrow> mode (migrateHistory history ! i) = mode (history ! i))
      \<and> userId (migrateHistory history ! i) = userId (history ! i)
      \<and> score (migrateHistory history ! i) = score (history ! i)
      \<and> totalAnswered (migrateHistory history ! i) = totalAnswered (history ! i)
      \<and> historyEntry.timeLimit (migrateHistory history ! i) = historyEntry.timeLimit (history ! i)
      \<and> historyEntry.more (migrateHistory history ! i) = historyEntry.more (history ! i))"
  by (simp add: migrateHistory_def modeOrNormal_nonempty modeOrNormal_falsy)

theorem migrateHistory_amended_witness:
  "length (migrateHistory exampleHistory) = 3
   \<and> mode (migrateHistory exampleHistory ! 0) = Some ''normal''
   \<and> mode (migrateHistory exampleHistory ! 1) = Some ''timeAttack''
   \<and> mode (migrateHistory exampleHistory ! 2) = Some ''normal''
   \<and> score (migrateHistory exampleHistory ! 2) = 5"
  using migrateHistory_amended [of exampleHistory]
  by (simp add: exampleHistory_def)

text \<open>
  Claim C6: \<open>trimHistory H\<close> has length \<open>min |H| 500\<close> and is the last \<open>min |H| 500\<close>
  elements of \<open>H\<close> in their order; a history of at most 500 entries is returned as it is.
\<close>

theorem trimHistory_last_500:
  "length (trimHistory H) = min (length H) 500
   \<and> trimHistory H = drop (length H - min (length H) 500) H
   \<and> (length H \<le> 500 \<longrightarrow> trimHistory H = H)"
  by (simp add: trimHistory_def sliceFromEnd_def min_def)

theorem trimHistory_last_500_witness:
  "length [10, 20, 30 :: int] \<le> 500
   \<and> trimHistory [10, 20, 30 :: int] = [10, 20, 30]
   \<and> length (trimHistory [0..<502]) = 500
   \<and> trimHistory [0..<502] = drop 2 [0..<502]"
  using trimHistory_last_500 [of "[10, 20, 30 :: int]"] trimHistory_last_500 [of "[0..<502]"]
  by simp

text \<open>
  Claim C8: \<open>migrateProducts\<close> returns a sequence of the same length in which a product
  without a \<open>stock\<close> has the stock 99, a present stock (0 too) is kept, and the code and
  every other field are unchanged.
\<close>

theorem migrateProducts_default_stock:
  "length (migrateProducts products) = length products
   \<and> (\<forall>i < length products.
        stock (migrateProducts products ! i)
          = (case stock (products ! i) of None \<Rightarrow> Some 99 | Some s \<Rightarrow> Some s)
      \<and> code (migrateProducts products ! i) = code (products ! i)
      \<and> product.more (migrateProducts products ! i) = product.more (products ! i))"
  by (simp add: migrateProducts_def effectiveStock_def split: option.splits)

theorem migrateProducts_default_stock_witness:
  "length (migrateProducts exampleProducts) = 3
   \<and> stock (migrateProducts exampleProducts ! 0) = Some 99
   \<and> stock (migrateProducts exampleProducts ! 1) = Some 0
   \<and> stock (migrateProducts exampleProducts ! 2) = Some 5
   \<and> code (migrateProducts exampleProducts ! 1) = ''B-2''"
  using migrateProducts_default_stock [of exampleProducts]
  by (simp add: exampleProducts_def)

text \<open>
  Claim C9: \<open>migrateHistory\<close> and \<open>migrateProducts\<close> are idempotent. Equality of the
  records is deep equality of the objects.
\<close>

theorem migrate_idempotent:
  "migrateHistory (migrateHistory history) = migrateHistory history
   \<and> migrateProducts (migrateProducts products) = migrateProducts products"
  by (simp add: migrateHistory_def migrateProducts_def modeOrNormal_idem effectiveStock_def)

section \<open>Properties of the score query\<close>

lemma fold_max_is_Max: "fold max ys (y :: int) = Max (set (y # ys))"
  by (simp only: Max.set_eq_fold)

lemma mathMax_in: "mathMax xs = Some v \<Longrightarrow> v \<in> set xs"
proof (cases xs)
  case Nil
  assume "mathMax xs = Some v"
  with Nil show ?thesis by (simp add: mathMax_def)
next
  case (Cons y ys)
  assume "mathMax xs = Some v"
  with Cons have "v = Max (set (y # ys))"
    by (simp only: mathMax_def list.case fold_max_is_Max option.inject)
  moreover have "Max (set (y # ys)) \<in> set (y # ys)"
    by (rule Max_in) simp_all
  ultimately show ?thesis using Cons by simp
qed

lemma mathMax_ge: "mathMax xs = Some v \<Longrightarrow> x \<in> set xs \<Longrightarrow> x \<le> v"
proof (cases xs)
  case Nil
  assume "x \<in> set xs"
  with Nil show ?thesis by simp
next
  case (Cons y ys)
  assume "mathMax xs = Some v" and x: "x \<in> set xs"
  with Cons have "v = Max (set (y # ys))"
    by (simp only: mathMax_def list.case fold_max_is_Max option.inject)
  moreover have "x \<le> Max (set (y # ys))"
    using x Cons by (intro Max_ge) simp_all
  ultimately show ?thesis by simp
qed

lemma mathMax_None: "mathMax xs = None \<Longrightarrow> xs = []"
  by (cases xs) (simp_all add: mathMax_def)

lemma bestOf_mathMax:
  "bestOf f hs (if length hs = 0 then None else mathMax (map f hs))"
proof (cases "hs = []")
  case True
  then show ?thesis by (simp add: bestOf_def)
next
  case False
  show ?thesis
  proof (cases "mathMax (map f hs)")
    case None
    then have "map f hs = []" by (rule mathMax_None)
    with False show ?thesis by simp
  next
    case (Some v)
    have "v \<in> set (map f hs)" using Some by (rule mathMax_in)
    then have ex: "\<exists>h \<in> set hs. f h = v" by auto
    have "\<forall>h \<in> set hs. f h \<le> v"
      using mathMax_ge [OF Some] by simp
    with ex False Some show ?thesis by (simp add: bestOf_def)
  qed
qed

lemma filter_timeLimit:
  "filter (\<lambda>h. historyEntry.timeLimit h = Some t)
     (filter (\<lambda>h. userId h = uid \<and> mode h = Some md) history)
   = filter (\<lambda>h. userId h = uid \<and> mode h = Some md \<and> historyEntry.timeLimit h = Some t) history"
  by (simp add: conj_commute conj_left_commute)

text \<open>
  Claim C4, as stated, fails: a \<open>timeLimit\<close> of 0 is given, but it is falsy, so the
  code takes the score branch. Here it returns the entry's score 3, while the claim's
  result is the entry's \<open>totalAnswered\<close>, 5.
\<close>

theorem getBestScore_zero_limit_counterexample:
  "optionsTimeLimit (Some \<lparr>timeLimit = Some 0\<rparr>) = Some 0
   \<and> getBestScore zeroLimitHistory ''u1'' ''timeAttack'' (Some \<lparr>timeLimit = Some 0\<rparr>) = Some 3
   \<and> getBestScoreSpec zeroLimitHistory ''u1'' ''timeAttack'' (Some \<lparr>timeLimit = Some 0\<rparr>) (Some 5)
   \<and> \<not> getBestScoreSpec zeroLimitHistory ''u1'' ''timeAttack'' (Some \<lparr>timeLimit = Some 0\<rparr>)
         (getBestScore zeroLimitHistory ''u1'' ''timeAttack'' (Some \<lparr>timeLimit = Some 0\<rparr>))"
  by (simp add: getBestScore_def getBestScoreSpec_def bestOf_def zeroLimitHistory_def
      optionsTimeLimit_def timeLimitTruthy_def mathMax_def)

text \<open>
  Claim C4, amended: if the mode is \<open>timeAttack\<close> and \<open>options.timeLimit\<close> is given and
  is not 0, \<open>getBestScore\<close> returns \<open>null\<close> when no entry matches the user, the mode and
  that exact time limit, and otherwise the maximum \<open>totalAnswered\<close> among the matching
  entries; in every other case (a time limit of 0 among them) it returns \<open>null\<close> when no
  entry matches the user and the mode, and otherwise the maximum \<open>score\<close> among them.
  So the result is \<open>null\<close> or some matching entry's value, and no matching entry has a
  higher one.
\<close>

theorem getBestScore_amended:
  "(md = ''timeAttack'' \<and> optionsTimeLimit opts = Some t \<and> t \<noteq> 0 \<longrightarrow>
      bestOf totalAnswered
        (filter (\<lambda>h. userId h = uid \<and> mode h = Some md \<and> historyEntry.timeLimit h = Some t) history)
        (getBestScore history uid md opts))
   \<and> (\<not> (md = ''timeAttack'' \<and> (\<exists>t. optionsTimeLimit opts = Some t \<and> t \<noteq> 0)) \<longrightarrow>
      bestOf score (filter (\<lambda>h. userId h = uid \<and> mode h = Some md) history)
        (getBestScore history uid md opts))"
proof (intro conjI impI)
  assume a: "md = ''timeAttack'' \<and> optionsTimeLimit opts = Some t \<and> t \<noteq> 0"
  then have truthy: "timeLimitTruthy opts"
    by (auto simp: timeLimitTruthy_def optionsTimeLimit_def split: option.splits)
  let ?ms = "filter (\<lambda>h. userId h = uid \<and> mode h = Some md \<and> historyEntry.timeLimit h = Some t) history"
  have "getBestScore history uid md opts
          = (if length ?ms = 0 then None else mathMax (map totalAnswered ?ms))"
    using a truthy by (simp add: getBestScore_def Let_def filter_timeLimit)
  then show "bestOf totalAnswered ?ms (getBestScore history uid md opts)"
    by (simp only: bestOf_mathMax)
next
  assume b: "\<not> (md = ''timeAttack'' \<and> (\<exists>t. optionsTimeLimit opts = Some t \<and> t \<noteq> 0))"
  then have "\<not> (md = ''timeAttack'' \<and> timeLimitTruthy opts)"
    by (auto simp: timeLimitTruthy_def optionsTimeLimit_def split: option.splits)
  let ?ms = "filter (\<lambda>h. userId h = uid \<and> mode h = Some md) history"
  from \<open>\<not> (md = ''timeAttack'' \<and> timeLimitTruthy opts)\<close>
  have "getBestScore history uid md opts
          = (if length ?ms = 0 then None else mathMax (map score ?ms))"
    by (auto simp: getBestScore_def Let_def)
  then show "bestOf score ?ms (getBestScore history uid md opts)"
    by (simp only: bestOf_mathMax)
qed

theorem getBestScore_amended_witness:
  "optionsTimeLimit (Some \<lparr>timeLimit = Some 60\<rparr>) = Some 60
   \<and> bestOf totalAnswered
       (filter (\<lambda>h. userId h = ''u1'' \<and> mode h = Some ''timeAttack''
                 \<and> historyEntry.timeLimit h = Some 60) exampleScores)
       (getBestScore exampleScores ''u1'' ''timeAttack'' (Some \<lparr>timeLimit = Some 60\<rparr>))
   \<and> getBestScore exampleScores ''u1'' ''timeAttack'' (Some \<lparr>timeLimit = Some 60\<rparr>) = Some 12
   \<and> bestOf score (filter (\<lambda>h. userId h = ''u1'' \<and> mode h = Some ''timeAttack'') exampleScores)
       (getBestScore exampleScores ''u1'' ''timeAttack'' None)
   \<and> getBestScore exampleScores ''u1'' ''timeAttack'' None = Some 20
   \<and> bestOf score (filter (\<lambda>h. userId h = ''u3'' \<and> mode h = Some ''normal'') exampleScores)
       (getBestScore exampleScores ''u3'' ''normal'' None)
   \<and> getBestScore exampleScores ''u3'' ''normal'' None = None"
proof -
  have e1: "getBestScore exampleScores ''u1'' ''timeAttack'' (Some \<lparr>timeLimit = Some 60\<rparr>) = Some 12"
    by (simp add: getBestScore_def exampleScores_def optionsTimeLimit_def timeLimitTruthy_def
        mathMax_def)
  have e2: "getBestScore exampleScores ''u1'' ''timeAttack'' None = Some 20"
    by (simp add: getBestScore_def exampleScores_def optionsTimeLimit_def timeLimitTruthy_def
        mathMax_def)
  have e3: "getBestScore exampleScores ''u3'' ''normal'' None = None"
    by (simp add: getBestScore_def exampleScores_def optionsTimeLimit_def timeLimitTruthy_def
        mathMax_def)
  have o1: "optionsTimeLimit (Some \<lparr>timeLimit = Some 60\<rparr>) = Some 60"
    by (simp add: optionsTimeLimit_def)
  have o2: "optionsTimeLimit None = None"
    by (simp add: optionsTimeLimit_def)
  show ?thesis
    using getBestScore_amended
      [where md = "''timeAttack''" and opts = "Some \<lparr>timeLimit = Some 60\<rparr>" and t = 60
         and uid = "''u1''" and history = exampleScores]
      getBestScore_amended
      [where md = "''timeAttack''" and opts = None and t = 0 and uid = "''u1''"
         and history = exampleScores]
      getBestScore_amended
      [where md = "''normal''" and opts = None and t = 0 and uid = "''u3''"
         and history = exampleScores]
      e1 e2 e3 o1 o2
    by simp
qed

section \<open>Properties of the random source\<close>

lemma randomIndex_less:
  assumes "0 \<le> u" and "u < 1" and "0 < n"
  shows "randomIndex u n < n"
proof -
  have "u * real n < real n"
    using assms by simp
  then have "\<lfloor>u * real n\<rfloor> < int n"
    by (simp add: floor_less_iff)
  moreover have "0 \<le> \<lfloor>u * real n\<rfloor>"
    using assms by simp
  ultimately show ?thesis
    unfolding randomIndex_def by linarith
qed

lemma randomQuantity_range:
  assumes "0 \<le> u" and "u < 1"
  shows "1 \<le> randomQuantity u \<and> randomQuantity u \<le> 3"
proof -
  have "0 \<le> \<lfloor>u * 3\<rfloor>"
    using assms by simp
  moreover have "u * 3 < 3"
    using assms by simp
  then have "\<lfloor>u * 3\<rfloor> < 3"
    by (simp add: floor_less_iff)
  ultimately show ?thesis
    by (simp add: randomQuantity_def)
qed

lemma validRandomD: "validRandom rnd \<Longrightarrow> 0 \<le> rnd i \<and> rnd i < 1"
  by (simp add: validRandom_def)

lemma validRandom_halves: "validRandom halves"
  by (simp add: validRandom_def halves_def)

section \<open>Properties of task generation\<close>

lemma generateRandomTask_None:
  "fst (generateRandomTask products rnd k) = None
     \<longleftrightarrow> filter (\<lambda>p. 0 < effectiveStock p) products = []"
  by (simp add: generateRandomTask_def Let_def)

lemma generateRandomTask_Some:
  assumes "filter (\<lambda>p. 0 < effectiveStock p) products \<noteq> []"
  shows "fst (generateRandomTask products rnd k)
     = Some \<lparr>product = filter (\<lambda>p. 0 < effectiveStock p) products
                 ! randomIndex (rnd k) (length (filter (\<lambda>p. 0 < effectiveStock p) products)),
             quantity = min (randomQuantity (rnd (k + 1)))
                 (effectiveStock (filter (\<lambda>p. 0 < effectiveStock p) products
                 ! randomIndex (rnd k) (length (filter (\<lambda>p. 0 < effectiveStock p) products)))),
             completed = False, found = None\<rparr>"
  using assms by (simp add: generateRandomTask_def Let_def)

text \<open>
  Claim C7: for every outcome of the random source, \<open>generateRandomTask\<close> returns
  \<open>null\<close> exactly when no product has an effective stock above 0; otherwise the task's
  product is one of the available products of the list it was given (as it is there: no
  stock is written, and the function has no ledger), its quantity is the minimum of the
  random integer \<open>r\<close> in \<open>{1, 2, 3}\<close> and the effective stock, so between 1 and 3 and at
  most the stock, and it is neither completed nor found.
\<close>

theorem generateRandomTask_result:
  assumes "validRandom rnd"
  shows "(fst (generateRandomTask products rnd k) = None
            \<longleftrightarrow> (\<forall>p \<in> set products. \<not> 0 < effectiveStock p))
     \<and> (\<forall>t. fst (generateRandomTask products rnd k) = Some t \<longrightarrow>
           product t \<in> set products \<and> 0 < effectiveStock (product t)
         \<and> randomQuantity (rnd (k + 1)) \<in> {1, 2, 3}
         \<and> quantity t = min (randomQuantity (rnd (k + 1))) (effectiveStock (product t))
         \<and> 1 \<le> quantity t \<and> quantity t \<le> 3 \<and> quantity t \<le> effectiveStock (product t)
         \<and> \<not> task.completed t \<and> found t = None)"
proof (intro conjI allI impI)
  show "fst (generateRandomTask products rnd k) = None
          \<longleftrightarrow> (\<forall>p \<in> set products. \<not> 0 < effectiveStock p)"
    by (simp add: generateRandomTask_None filter_empty_conv)
next
  fix t
  assume some: "fst (generateRandomTask products rnd k) = Some t"
  let ?available = "filter (\<lambda>p. 0 < effectiveStock p) products"
  let ?i = "randomIndex (rnd k) (length ?available)"
  let ?r = "randomQuantity (rnd (k + 1))"
  have nonempty: "?available \<noteq> []"
    using some generateRandomTask_None [of products rnd k] by auto
  have t: "t = \<lparr>product = ?available ! ?i, quantity = min ?r (effectiveStock (?available ! ?i)),
                completed = False, found = None\<rparr>"
    using some generateRandomTask_Some [OF nonempty, of rnd k] by simp
  have "?i < length ?available"
    using validRandomD [OF assms, of k] nonempty by (intro randomIndex_less) simp_all
  then have "?available ! ?i \<in> set ?available"
    by (rule nth_mem)
  then have mem: "product t \<in> set products" and pos: "0 < effectiveStock (product t)"
    using t by simp_all
  have r: "1 \<le> ?r \<and> ?r \<le> 3"
    using validRandomD [OF assms, of "k + 1"] by (intro randomQuantity_range) simp_all
  have q: "quantity t = min ?r (effectiveStock (product t))"
    using t by simp
  show "product t \<in> set products" by (rule mem)
  show "0 < effectiveStock (product t)" by (rule pos)
  show "?r \<in> {1, 2, 3}" using r by auto
  show "quantity t = min ?r (effectiveStock (product t))" by (rule q)
  show "1 \<le> quantity t" using q r pos by linarith
  show "quantity t \<le> 3" using q r by linarith
  show "quantity t \<le> effectiveStock (product t)" using q by simp
  show "\<not> task.completed t" using t by simp
  show "found t = None" using t by simp
qed

theorem generateRandomTask_result_witness:
  "validRandom halves
   \<and> fst (generateRandomTask exampleProducts halves 0)
       = Some \<lparr>product = \<lparr>code = ''C-3'', stock = Some 5\<rparr>, quantity = 2, completed = False,
               found = None\<rparr>
   \<and> \<lparr>code = ''C-3'', stock = Some 5\<rparr> \<in> set exampleProducts
   \<and> randomQuantity (halves (0 + 1)) \<in> {1, 2, 3}
   \<and> (2 :: int) = min (randomQuantity (halves (0 + 1))) (effectiveStock \<lparr>code = ''C-3'', stock = Some 5\<rparr>)
   \<and> fst (generateRandomTask soldOut halves 0) = None"
proof -
  have e: "fst (generateRandomTask exampleProducts halves 0)
       = Some \<lparr>product = \<lparr>code = ''C-3'', stock = Some 5\<rparr>, quantity = 2, completed = False,
               found = None\<rparr>"
    by (simp add: generateRandomTask_def exampleProducts_def halves_def effectiveStock_def
        randomIndex_def randomQuantity_def)
  have n: "\<forall>p \<in> set soldOut. \<not> 0 < effectiveStock p"
    by (simp add: soldOut_def effectiveStock_def)
  show ?thesis
    using generateRandomTask_result [OF validRandom_halves, of exampleProducts 0]
      generateRandomTask_result [OF validRandom_halves, of soldOut 0] e n validRandom_halves
    by simp
qed

lemma pushRandomTask_length:
  "length (fst (pushRandomTask products rnd i st))
     = length (fst st) + (if filter (\<lambda>p. 0 < effectiveStock p) products = [] then 0 else 1)"
  by (simp add: pushRandomTask_def generateRandomTask_def Let_def)

lemma fold_pushRandomTask_length:
  "length (fst (fold (pushRandomTask products rnd) is st))
     = length (fst st)
       + (if filter (\<lambda>p. 0 < effectiveStock p) products = [] then 0 else length is)"
proof (induction "is" arbitrary: st)
  case Nil
  show ?case by simp
next
  case (Cons i "is")
  show ?case
    by (simp add: Cons.IH pushRandomTask_length)
qed

text \<open>
  Claim C10: for every outcome of the random source, \<open>generateRandomTasks\<close> returns
  exactly \<open>count\<close> tasks when some product has an effective stock above 0, and no task
  otherwise.
\<close>

theorem generateRandomTasks_length:
  "length (fst (generateRandomTasks products count rnd k))
     = (if \<exists>p \<in> set products. 0 < effectiveStock p then count else 0)"
proof -
  have "(filter (\<lambda>p. 0 < effectiveStock p) products = [])
          \<longleftrightarrow> \<not> (\<exists>p \<in> set products. 0 < effectiveStock p)"
    by (simp add: filter_empty_conv)
  then show ?thesis
    by (simp add: generateRandomTasks_def fold_pushRandomTask_length)
qed

theorem generateRandomTasks_length_witness:
  "length (fst (generateRandomTasks exampleProducts 4 halves 0)) = 4
   \<and> length (fst (generateRandomTasks soldOut 4 halves 0)) = 0"
proof -
  have a: "\<exists>p \<in> set exampleProducts. 0 < effectiveStock p"
    by (simp add: exampleProducts_def effectiveStock_def)
  have b: "\<not> (\<exists>p \<in> set soldOut. 0 < effectiveStock p)"
    by (simp add: soldOut_def effectiveStock_def)
  show ?thesis
    using generateRandomTasks_length [of exampleProducts 4 halves 0]
      generateRandomTasks_length [of soldOut 4 halves 0] a b
    by simp
qed

section \<open>Properties of slip generation\<close>

lemma generateTaskWithStock_None:
  "candidates products rs used = [] \<Longrightarrow>
     generateTaskWithStock products rs (Some used) rnd k = (None, rs, k)"
  by (simp add: generateTaskWithStock_def candidates_def Let_def)

lemma generateTaskWithStock_Some:
  assumes "candidates products rs used \<noteq> []"
  shows "generateTaskWithStock products rs (Some used) rnd k
     = (Some \<lparr>product = candidates products rs used
                  ! randomIndex (rnd k) (length (candidates products rs used)),
              quantity = min (randomQuantity (rnd (k + 1)))
                  (remaining rs (candidates products rs used
                     ! randomIndex (rnd k) (length (candidates products rs used)))),
              completed = False, found = None\<rparr>,
        ledgerSet rs
          (code (candidates products rs used
             ! randomIndex (rnd k) (length (candidates products rs used))))
          (remaining rs (candidates products rs used
             ! randomIndex (rnd k) (length (candidates products rs used)))
           - min (randomQuantity (rnd (k + 1)))
               (remaining rs (candidates products rs used
                  ! randomIndex (rnd k) (length (candidates products rs used))))),
        k + 2)"
  using assms by (simp add: generateTaskWithStock_def candidates_def Let_def)

lemma chosen_candidate:
  assumes "validRandom rnd" and "candidates products rs used \<noteq> []"
  shows "candidates products rs used ! randomIndex (rnd k) (length (candidates products rs used))
           \<in> set (candidates products rs used)"
proof -
  have "randomIndex (rnd k) (length (candidates products rs used))
          < length (candidates products rs used)"
    using validRandomD [OF assms(1), of k] assms(2) by (intro randomIndex_less) simp_all
  then show ?thesis by (rule nth_mem)
qed

text \<open>What one call of the stock-aware generator does, as a case distinction.\<close>

lemma generateTaskWithStock_cases:
  assumes "validRandom rnd"
  shows "generateTaskWithStock products rs (Some used) rnd k = (None, rs, k)
     \<or> (\<exists>p q. p \<in> set products \<and> inStock rs p \<and> code p \<notin> used
            \<and> 1 \<le> q \<and> q \<le> 3 \<and> q \<le> remaining rs p
            \<and> generateTaskWithStock products rs (Some used) rnd k
                 = (Some \<lparr>product = p, quantity = q, completed = False, found = None\<rparr>,
                    ledgerSet rs (code p) (remaining rs p - q), k + 2))"
proof (cases "candidates products rs used = []")
  case True
  then show ?thesis by (simp add: generateTaskWithStock_None)
next
  case False
  let ?p = "candidates products rs used ! randomIndex (rnd k) (length (candidates products rs used))"
  let ?r = "randomQuantity (rnd (k + 1))"
  let ?q = "min ?r (remaining rs ?p)"
  have "?p \<in> set (candidates products rs used)"
    using assms False by (rule chosen_candidate)
  then have p: "?p \<in> set products" "inStock rs ?p" "code ?p \<notin> used"
    by (simp_all add: candidates_def)
  have r: "1 \<le> ?r \<and> ?r \<le> 3"
    using validRandomD [OF assms, of "k + 1"] by (intro randomQuantity_range) simp_all
  have pos: "0 < remaining rs ?p"
    using p(2) by (simp add: inStock_def)
  have q1: "1 \<le> ?q" using r pos by linarith
  have q3: "?q \<le> 3" using r by linarith
  have qs: "?q \<le> remaining rs ?p" by simp
  show ?thesis
    using p q1 q3 qs generateTaskWithStock_Some [OF False, of rnd k] by blast
qed

section \<open>No product twice in a slip\<close>

lemma slipInv_start: "slipInv ([], {}, rs, k)"
  by (simp add: slipInv_def taskCodes_def)

lemma slipInv_addSlipTask:
  assumes "validRandom rnd" and "slipInv st"
  shows "slipInv (addSlipTask products rnd j st)"
proof -
  obtain ts used rs k where st: "st = (ts, used, rs, k)"
    by (cases st) auto
  from assms(2) st have inv: "used = set (taskCodes ts)" "distinct (taskCodes ts)"
    by (simp_all add: slipInv_def)
  from generateTaskWithStock_cases [OF assms(1), of products rs used k]
  show ?thesis
  proof (elim disjE exE conjE)
    assume "generateTaskWithStock products rs (Some used) rnd k = (None, rs, k)"
    then show ?thesis using st inv by (simp add: addSlipTask_def slipInv_def)
  next
    fix p q
    assume "code p \<notin> used"
      and "generateTaskWithStock products rs (Some used) rnd k
             = (Some \<lparr>product = p, quantity = q, completed = False, found = None\<rparr>,
                ledgerSet rs (code p) (remaining rs p - q), k + 2)"
    then show ?thesis using st inv
      by (simp add: addSlipTask_def slipInv_def taskCodes_def)
  qed
qed

lemma slipInv_slipTasks:
  assumes "validRandom rnd"
  shows "slipInv (slipTasks products itemsPerSlip rnd rs k)"
  unfolding slipTasks_def
  by (rule fold_invariant [where Q = "\<lambda>j. True"])
     (simp_all add: slipInv_start slipInv_addSlipTask [OF assms])

lemma slipTasks_distinct:
  assumes "validRandom rnd"
  shows "distinct (taskCodes (fst (slipTasks products itemsPerSlip rnd rs k)))"
  using slipInv_slipTasks [OF assms, of products itemsPerSlip rs k]
  by (cases "slipTasks products itemsPerSlip rnd rs k") (simp add: slipInv_def)

lemma addSlip_slips:
  "fst (addSlip products itemsPerSlip rnd i st)
     = fst st @ [\<lparr>slipId = ''slip-'' @ decimal i, slipNumber = i + 1,
                  tasks = fst (slipTasks products itemsPerSlip rnd (fst (snd st)) (snd (snd st))),
                  completed = False\<rparr>]"
  by (cases st; cases "slipTasks products itemsPerSlip rnd (fst (snd st)) (snd (snd st))")
     (simp add: addSlip_def)

lemma addSlip_distinct:
  assumes "validRandom rnd" and "\<forall>s \<in> set (fst st). distinct (taskCodes (tasks s))"
  shows "\<forall>s \<in> set (fst (addSlip products itemsPerSlip rnd i st)). distinct (taskCodes (tasks s))"
proof -
  have "distinct (taskCodes (fst (slipTasks products itemsPerSlip rnd (fst (snd st)) (snd (snd st)))))"
    using assms(1) by (rule slipTasks_distinct)
  with assms(2) show ?thesis
    by (simp add: addSlip_slips)
qed


section \<open>The ledger\<close>

lemma initialLedger_other:
  "c \<notin> code ` set ps \<Longrightarrow>
     fold (\<lambda>p rs. ledgerSet rs (code p) (effectiveStock p)) ps m c = m c"
  by (induction ps arbitrary: m) (auto simp: ledgerSet_def)

lemma initialLedger_proto:
  "fold (\<lambda>p rs. ledgerSet rs (code p) (effectiveStock p)) ps m protoKey = m protoKey"
  by (induction ps arbitrary: m) (auto simp: ledgerSet_def)

lemma initialLedger_entry:
  "distinct (map code ps) \<Longrightarrow> p \<in> set ps \<Longrightarrow> code p \<noteq> protoKey \<Longrightarrow>
     fold (\<lambda>p rs. ledgerSet rs (code p) (effectiveStock p)) ps m (code p) = Some (effectiveStock p)"
proof (induction ps arbitrary: m)
  case Nil
  then show ?case by simp
next
  case (Cons a ps)
  show ?case
  proof (cases "p = a")
    case True
    have "code a \<notin> code ` set ps"
      using Cons.prems(1) by auto
    then have "fold (\<lambda>p rs. ledgerSet rs (code p) (effectiveStock p)) ps
                 (ledgerSet m (code a) (effectiveStock a)) (code a)
               = ledgerSet m (code a) (effectiveStock a) (code a)"
      by (rule initialLedger_other)
    also have "\<dots> = Some (effectiveStock a)"
      using True Cons.prems(3) by (simp add: ledgerSet_def)
    finally show ?thesis
      using True by simp
  next
    case False
    with Cons.prems have "p \<in> set ps" and "distinct (map code ps)"
      by simp_all
    then show ?thesis
      using Cons.IH Cons.prems(3) by simp
  qed
qed

lemma initialLedger_dom:
  "fold (\<lambda>p rs. ledgerSet rs (code p) (effectiveStock p)) ps m c \<noteq> None \<Longrightarrow>
     m c \<noteq> None \<or> (c \<noteq> protoKey \<and> c \<in> code ` set ps)"
proof (induction ps arbitrary: m)
  case Nil
  then show ?case by simp
next
  case (Cons a ps)
  from Cons.prems
  have "fold (\<lambda>p rs. ledgerSet rs (code p) (effectiveStock p)) ps
          (ledgerSet m (code a) (effectiveStock a)) c \<noteq> None"
    by simp
  then have "ledgerSet m (code a) (effectiveStock a) c \<noteq> None
               \<or> (c \<noteq> protoKey \<and> c \<in> code ` set ps)"
    by (rule Cons.IH)
  then show ?case
    by (auto simp: ledgerSet_def split: if_splits)
qed

lemma pickedQuantity_append:
  "pickedQuantity c (ts @ us) = pickedQuantity c ts + pickedQuantity c us"
  by (simp add: pickedQuantity_def)

lemma pickedQuantity_single:
  "pickedQuantity c [t] = (if code (product t) = c then quantity t else 0)"
  by (simp add: pickedQuantity_def)

lemma pickedQuantity_nonneg:
  "\<forall>t \<in> set ts. 0 \<le> quantity t \<Longrightarrow> 0 \<le> pickedQuantity c ts"
  unfolding pickedQuantity_def by (rule sum_list_nonneg) auto

lemma pickedQuantity_take:
  assumes "\<forall>t \<in> set ts. 0 \<le> quantity t"
  shows "pickedQuantity c (take n ts) \<le> pickedQuantity c ts"
proof -
  have "\<forall>t \<in> set (drop n ts). 0 \<le> quantity t"
    using assms by (meson in_set_dropD)
  then have "0 \<le> pickedQuantity c (drop n ts)"
    by (rule pickedQuantity_nonneg)
  moreover have "pickedQuantity c ts = pickedQuantity c (take n ts) + pickedQuantity c (drop n ts)"
    by (simp only: pickedQuantity_append [symmetric] append_take_drop_id)
  ultimately show ?thesis by simp
qed

lemma ledgerInv_start:
  assumes "distinct (map code ps)" and "\<forall>p \<in> set ps. 0 \<le> effectiveStock p"
  shows "ledgerInv ps [] (initialLedger ps)"
proof -
  have "0 \<le> v" if "initialLedger ps c = Some v" for c v
  proof -
    from that
    have "fold (\<lambda>p rs. ledgerSet rs (code p) (effectiveStock p)) ps Map.empty c \<noteq> None"
      by (simp add: initialLedger_def)
    then have "Map.empty c \<noteq> (None :: int option) \<or> (c \<noteq> protoKey \<and> c \<in> code ` set ps)"
      by (rule initialLedger_dom)
    then have "c \<noteq> protoKey \<and> c \<in> code ` set ps"
      by simp
    then obtain p where p: "p \<in> set ps" "code p = c" "code p \<noteq> protoKey"
      by auto
    then have "initialLedger ps c = Some (effectiveStock p)"
      unfolding initialLedger_def using initialLedger_entry [OF assms(1) p(1) p(3)] by simp
    with that assms(2) p(1) show ?thesis by auto
  qed
  then show ?thesis
    by (auto simp: ledgerInv_def pickedQuantity_def split: option.splits)
qed

lemma initialLedger_keeps:
  "m c \<noteq> None \<Longrightarrow> fold (\<lambda>p rs. ledgerSet rs (code p) (effectiveStock p)) ps m c \<noteq> None"
  by (induction ps arbitrary: m) (simp_all add: ledgerSet_def)

lemma initialLedger_has:
  "p \<in> set ps \<Longrightarrow> code p \<noteq> protoKey \<Longrightarrow>
     fold (\<lambda>p rs. ledgerSet rs (code p) (effectiveStock p)) ps m (code p) \<noteq> None"
proof (induction ps arbitrary: m)
  case Nil
  then show ?case by simp
next
  case (Cons a ps)
  show ?case
  proof (cases "p = a")
    case True
    have "ledgerSet m (code a) (effectiveStock a) (code a) \<noteq> None"
      using True Cons.prems(2) by (simp add: ledgerSet_def)
    then have "fold (\<lambda>p rs. ledgerSet rs (code p) (effectiveStock p)) ps
                 (ledgerSet m (code a) (effectiveStock a)) (code a) \<noteq> None"
      by (rule initialLedger_keeps)
    then show ?thesis using True by simp
  next
    case False
    with Cons.prems have "p \<in> set ps" by simp
    then show ?thesis using Cons.IH Cons.prems(2) by simp
  qed
qed

lemma ledgerInv_step:
  assumes inv: "ledgerInv ps ts rs"
    and p: "p \<in> set ps" "inStock rs p"
    and q: "1 \<le> q" "q \<le> remaining rs p"
  shows "ledgerInv ps (ts @ [\<lparr>product = p, quantity = q, completed = False, found = None\<rparr>])
           (ledgerSet rs (code p) (remaining rs p - q))"
proof -
  let ?t = "\<lparr>product = p, quantity = q, completed = False, found = None\<rparr>"
  have np: "code p \<noteq> protoKey"
    using p(2) by (simp add: inStock_def)
  have "initialLedger ps (code p) \<noteq> None"
    unfolding initialLedger_def using p(1) np by (rule initialLedger_has)
  then obtain v0 where v0: "initialLedger ps (code p) = Some v0"
    by auto
  have a: "rs c = (case initialLedger ps c of None \<Rightarrow> None
                   | Some v \<Rightarrow> Some (v - pickedQuantity c ts))" for c
    using inv by (simp add: ledgerInv_def)
  have b: "0 \<le> v" if "rs c = Some v" for c v
    using inv that by (simp add: ledgerInv_def)
  have c: "\<forall>t \<in> set ts. 1 \<le> quantity t \<and> initialLedger ps (code (product t)) \<noteq> None"
    using inv by (simp add: ledgerInv_def)
  have rem: "remaining rs p = v0 - pickedQuantity (code p) ts"
    using a [of "code p"] v0 by (simp add: remaining_def)
  have set: "ledgerSet rs (code p) (remaining rs p - q) = rs(code p \<mapsto> remaining rs p - q)"
    using np by (simp add: ledgerSet_def)
  have a': "(rs(code p \<mapsto> remaining rs p - q)) c
              = (case initialLedger ps c of None \<Rightarrow> None
                 | Some v \<Rightarrow> Some (v - pickedQuantity c (ts @ [?t])))" for c
  proof (cases "c = code p")
    case True
    then show ?thesis
      using v0 rem by (simp add: pickedQuantity_append pickedQuantity_single)
  next
    case False
    then have "pickedQuantity c (ts @ [?t]) = pickedQuantity c ts"
      by (auto simp: pickedQuantity_append pickedQuantity_single)
    then show ?thesis
      using a [of c] False by (simp split: option.splits)
  qed
  have b': "0 \<le> v" if "(rs(code p \<mapsto> remaining rs p - q)) c = Some v" for c v
  proof (cases "c = code p")
    case True
    with that have "v = remaining rs p - q" by simp
    then show ?thesis using q(2) by simp
  next
    case False
    with that have "rs c = Some v" by simp
    then show ?thesis by (rule b)
  qed
  have c': "\<forall>t \<in> set (ts @ [?t]). 1 \<le> quantity t \<and> initialLedger ps (code (product t)) \<noteq> None"
    using c q(1) v0 by simp
  show ?thesis
    unfolding ledgerInv_def set using a' b' c' by blast
qed

lemma slipLedgerInv_addSlipTask:
  assumes "validRandom rnd" and "slipLedgerInv ps pre st"
  shows "slipLedgerInv ps pre (addSlipTask ps rnd j st)"
proof -
  obtain ts used rs k where st: "st = (ts, used, rs, k)"
    by (cases st) auto
  from assms(2) st have inv: "ledgerInv ps (pre @ ts) rs"
    by (simp add: slipLedgerInv_def)
  from generateTaskWithStock_cases [OF assms(1), of ps rs used k]
  show ?thesis
  proof (elim disjE exE conjE)
    assume "generateTaskWithStock ps rs (Some used) rnd k = (None, rs, k)"
    then show ?thesis using st inv by (simp add: addSlipTask_def slipLedgerInv_def)
  next
    fix p q
    assume p: "p \<in> set ps" "inStock rs p" and q: "1 \<le> q" "q \<le> remaining rs p"
      and g: "generateTaskWithStock ps rs (Some used) rnd k
             = (Some \<lparr>product = p, quantity = q, completed = False, found = None\<rparr>,
                ledgerSet rs (code p) (remaining rs p - q), k + 2)"
    have "ledgerInv ps ((pre @ ts) @ [\<lparr>product = p, quantity = q, completed = False, found = None\<rparr>])
            (ledgerSet rs (code p) (remaining rs p - q))"
      using inv p q by (rule ledgerInv_step)
    then show ?thesis using st g
      by (simp add: addSlipTask_def slipLedgerInv_def)
  qed
qed

lemma slipLedgerInv_slipTasks:
  assumes "validRandom rnd" and "ledgerInv ps pre rs"
  shows "slipLedgerInv ps pre (slipTasks ps itemsPerSlip rnd rs k)"
  unfolding slipTasks_def
proof (rule fold_invariant [where Q = "\<lambda>j. True"])
  show "slipLedgerInv ps pre ([], {}, rs, k)"
    using assms(2) by (simp add: slipLedgerInv_def)
qed (simp_all add: slipLedgerInv_addSlipTask [OF assms(1)])

lemma runLedgerInv_addSlip:
  assumes "validRandom rnd" and "runLedgerInv ps st"
  shows "runLedgerInv ps (addSlip ps itemsPerSlip rnd i st)"
proof -
  obtain slips rs k where st: "st = (slips, rs, k)"
    by (cases st) auto
  obtain ts used rs' k' where r: "slipTasks ps itemsPerSlip rnd rs k = (ts, used, rs', k')"
    by (cases "slipTasks ps itemsPerSlip rnd rs k") auto
  from assms(2) st have "ledgerInv ps (allTasks slips) rs"
    by (simp add: runLedgerInv_def)
  with assms(1) have "slipLedgerInv ps (allTasks slips) (slipTasks ps itemsPerSlip rnd rs k)"
    by (rule slipLedgerInv_slipTasks)
  then have "ledgerInv ps (allTasks slips @ ts) rs'"
    using r by (simp add: slipLedgerInv_def)
  then show ?thesis
    using st r by (simp add: addSlip_def runLedgerInv_def allTasks_def)
qed

lemma runLedgerInv_generateSlipsRun:
  assumes "validRandom rnd" and "distinct (map code ps)"
    and "\<forall>p \<in> set ps. 0 \<le> effectiveStock p"
  shows "runLedgerInv ps (generateSlipsRun ps slipCount itemsPerSlip rnd k)"
  unfolding generateSlipsRun_def
proof (rule fold_invariant [where Q = "\<lambda>i. True"])
  show "runLedgerInv ps ([], initialLedger ps, k)"
    using ledgerInv_start [OF assms(2,3)] by (simp add: runLedgerInv_def allTasks_def)
qed (simp_all add: runLedgerInv_addSlip [OF assms(1)])

lemma fold_addSlip_length:
  "length (fst (fold (addSlip ps itemsPerSlip rnd) is st)) = length (fst st) + length is"
  by (induction "is" arbitrary: st) (simp_all add: addSlip_slips)

lemma generateSlips_length: "length (generateSlips ps slipCount itemsPerSlip rnd k) = slipCount"
  by (simp add: generateSlips_def generateSlipsRun_def fold_addSlip_length)


text \<open>
  Claim C5: for every products list (codes may repeat in it), every \<open>slipCount\<close> and
  \<open>itemsPerSlip\<close> and every outcome of the random source, no two tasks of one returned
  slip have the same product code.
\<close>

theorem generateSlips_distinct_codes:
  assumes "validRandom rnd"
  shows "\<forall>s \<in> set (generateSlips products slipCount itemsPerSlip rnd k).
           distinct (map (\<lambda>t. code (product t)) (tasks s))"
proof -
  have "\<forall>s \<in> set (fst (generateSlipsRun products slipCount itemsPerSlip rnd k)).
          distinct (taskCodes (tasks s))"
    unfolding generateSlipsRun_def
    by (rule fold_invariant [where Q = "\<lambda>i. True"])
       (simp_all add: addSlip_distinct [OF assms])
  then show ?thesis
    by (simp add: generateSlips_def taskCodes_def)
qed

theorem generateSlips_distinct_codes_witness:
  "validRandom halves
   \<and> generateSlips duplicateCodes 1 3 halves 0 ! 0 \<in> set (generateSlips duplicateCodes 1 3 halves 0)
   \<and> distinct (map (\<lambda>t. code (product t)) (tasks (generateSlips duplicateCodes 1 3 halves 0 ! 0)))
   \<and> map (\<lambda>t. code (product t)) (tasks (generateSlips duplicateCodes 1 3 halves 0 ! 0))
       = [''A-1'', ''C-3'']"
proof -
  have mem: "generateSlips duplicateCodes 1 3 halves 0 ! 0
               \<in> set (generateSlips duplicateCodes 1 3 halves 0)"
    by (rule nth_mem) (simp add: generateSlips_length)
  have ev: "map (\<lambda>t. code (product t)) (tasks (generateSlips duplicateCodes 1 3 halves 0 ! 0))
       = [''A-1'', ''C-3'']"
    by code_simp
  show ?thesis
    using generateSlips_distinct_codes [OF validRandom_halves, of duplicateCodes 1 3 0]
      mem ev validRandom_halves
    by simp
qed

text \<open>
  Claim C1, as stated, fails: a product with a negative stock is never picked, so the
  quantities of its tasks sum to 0, which exceeds its initial effective stock, and its
  ledger entry is negative from the start.
\<close>

theorem generateSlips_negative_stock_counterexample:
  "distinct (map code negativeStock)
   \<and> validRandom halves
   \<and> generateSlips negativeStock 1 1 halves 0
       = [\<lparr>slipId = ''slip-0'', slipNumber = 1, tasks = [], completed = False\<rparr>]
   \<and> effectiveStock \<lparr>code = ''D-4'', stock = Some (- 2)\<rparr> = - 2
   \<and> pickedQuantity ''D-4'' (allTasks (generateSlips negativeStock 1 1 halves 0)) = 0
   \<and> \<not> pickedQuantity ''D-4'' (allTasks (generateSlips negativeStock 1 1 halves 0))
         \<le> effectiveStock \<lparr>code = ''D-4'', stock = Some (- 2)\<rparr>
   \<and> fst (snd (generateSlipsRun negativeStock 1 1 halves 0)) ''D-4'' = Some (- 2)"
proof -
  have slips: "generateSlips negativeStock 1 1 halves 0
      = [\<lparr>slipId = ''slip-0'', slipNumber = 1, tasks = [], completed = False\<rparr>]"
    by code_simp
  have ledger: "fst (snd (generateSlipsRun negativeStock 1 1 halves 0)) ''D-4'' = Some (- 2)"
    by code_simp
  have picked: "pickedQuantity ''D-4'' (allTasks (generateSlips negativeStock 1 1 halves 0)) = 0"
    by (simp only: slips) (simp add: allTasks_def pickedQuantity_def)
  have eff: "effectiveStock \<lparr>code = ''D-4'', stock = Some (- 2)\<rparr> = - 2"
    by (simp add: effectiveStock_def)
  have d: "distinct (map code negativeStock)"
    by (simp add: negativeStock_def)
  from d validRandom_halves slips eff picked ledger show ?thesis
    by (simp only: simp_thms)
qed

text \<open>
  Claim C1, amended: for every products list whose product codes are pairwise distinct
  and whose stocks, where present, are not negative, and for every outcome of the random
  source, \<open>generateSlips\<close> returns exactly \<open>slipCount\<close> slips, and at every moment of the
  generation (after any number \<open>n\<close> of generated tasks) the quantities of the tasks
  bearing a product's code sum to at most that product's initial effective stock;
  no entry of the ledger is negative.
\<close>

theorem generateSlips_stock_amended:
  assumes "distinct (map code products)" and "validRandom rnd"
    and "\<forall>p \<in> set products. 0 \<le> effectiveStock p"
  shows "length (generateSlips products slipCount itemsPerSlip rnd k) = slipCount
     \<and> (\<forall>p \<in> set products. \<forall>n.
           pickedQuantity (code p)
             (take n (allTasks (generateSlips products slipCount itemsPerSlip rnd k)))
           \<le> effectiveStock p)
     \<and> (\<forall>c v. fst (snd (generateSlipsRun products slipCount itemsPerSlip rnd k)) c = Some v
           \<longrightarrow> 0 \<le> v)"
proof -
  obtain slips rs k' where run: "generateSlipsRun products slipCount itemsPerSlip rnd k = (slips, rs, k')"
    by (cases "generateSlipsRun products slipCount itemsPerSlip rnd k") auto
  then have slips: "generateSlips products slipCount itemsPerSlip rnd k = slips"
    by (simp add: generateSlips_def)
  have "runLedgerInv products (generateSlipsRun products slipCount itemsPerSlip rnd k)"
    using assms(2,1,3) by (rule runLedgerInv_generateSlipsRun)
  then have inv: "ledgerInv products (allTasks slips) rs"
    using run by (simp add: runLedgerInv_def)
  have a: "rs c = (case initialLedger products c of None \<Rightarrow> None
                   | Some v \<Rightarrow> Some (v - pickedQuantity c (allTasks slips)))" for c
    using inv by (simp add: ledgerInv_def)
  have b: "0 \<le> v" if "rs c = Some v" for c v
    using inv that by (simp add: ledgerInv_def)
  have c: "\<forall>t \<in> set (allTasks slips).
             1 \<le> quantity t \<and> initialLedger products (code (product t)) \<noteq> None"
    using inv by (simp add: ledgerInv_def)
  then have nonneg: "\<forall>t \<in> set (allTasks slips). 0 \<le> quantity t"
    by auto
  have total: "pickedQuantity (code p) (allTasks slips) \<le> effectiveStock p"
    if p: "p \<in> set products" for p
  proof (cases "code p = protoKey")
    case True
    have "initialLedger products protoKey = None"
      by (simp add: initialLedger_def initialLedger_proto)
    with c have "\<forall>t \<in> set (allTasks slips). code (product t) \<noteq> protoKey"
      by auto
    then have "filter (\<lambda>t. code (product t) = protoKey) (allTasks slips) = []"
      by (simp add: filter_empty_conv)
    then have "pickedQuantity (code p) (allTasks slips) = 0"
      using True by (simp add: pickedQuantity_def)
    then show ?thesis using assms(3) p by simp
  next
    case False
    have "initialLedger products (code p) = Some (effectiveStock p)"
      unfolding initialLedger_def using assms(1) p False by (rule initialLedger_entry)
    then have "rs (code p) = Some (effectiveStock p - pickedQuantity (code p) (allTasks slips))"
      using a [of "code p"] by simp
    then have "0 \<le> effectiveStock p - pickedQuantity (code p) (allTasks slips)"
      by (rule b)
    then show ?thesis by simp
  qed
  have prefix: "pickedQuantity (code p) (take n (allTasks slips)) \<le> effectiveStock p"
    if p: "p \<in> set products" for p n
    using pickedQuantity_take [OF nonneg, of "code p" n] total [OF p] by linarith
  have "length (generateSlips products slipCount itemsPerSlip rnd k) = slipCount"
    by (rule generateSlips_length)
  moreover have "\<forall>p \<in> set products. \<forall>n.
      pickedQuantity (code p) (take n (allTasks (generateSlips products slipCount itemsPerSlip rnd k)))
        \<le> effectiveStock p"
    using prefix slips by simp
  moreover have "\<forall>c v. fst (snd (generateSlipsRun products slipCount itemsPerSlip rnd k)) c = Some v
      \<longrightarrow> 0 \<le> v"
    using b run by simp
  ultimately show ?thesis by (intro conjI)
qed

theorem generateSlips_stock_amended_witness:
  "distinct (map code exampleProducts)
   \<and> validRandom halves
   \<and> list_all (\<lambda>p. 0 \<le> effectiveStock p) exampleProducts
   \<and> length (generateSlips exampleProducts 2 2 halves 0) = 2
   \<and> pickedQuantity ''C-3'' (take 3 (allTasks (generateSlips exampleProducts 2 2 halves 0)))
       \<le> effectiveStock \<lparr>code = ''C-3'', stock = Some 5\<rparr>
   \<and> pickedQuantity ''C-3'' (allTasks (generateSlips exampleProducts 2 2 halves 0)) = 4
   \<and> fst (snd (generateSlipsRun exampleProducts 2 2 halves 0)) ''C-3'' = Some 1"
proof -
  have d: "distinct (map code exampleProducts)"
    by (simp add: exampleProducts_def)
  have n: "\<forall>p \<in> set exampleProducts. 0 \<le> effectiveStock p"
    by (simp add: exampleProducts_def effectiveStock_def)
  have c: "\<lparr>code = ''C-3'', stock = Some 5\<rparr> \<in> set exampleProducts"
    by (simp add: exampleProducts_def)
  have total: "pickedQuantity ''C-3'' (allTasks (generateSlips exampleProducts 2 2 halves 0)) = 4"
    by code_simp
  have ledger: "fst (snd (generateSlipsRun exampleProducts 2 2 halves 0)) ''C-3'' = Some 1"
    by code_simp
  have "pickedQuantity (code \<lparr>code = ''C-3'', stock = Some 5\<rparr>)
          (take 3 (allTasks (generateSlips exampleProducts 2 2 halves 0)))
        \<le> effectiveStock \<lparr>code = ''C-3'', stock = Some 5\<rparr>"
    using generateSlips_stock_amended [OF d validRandom_halves n, of 2 2 0] c by blast
  moreover have "length (generateSlips exampleProducts 2 2 halves 0) = 2"
    using generateSlips_stock_amended [OF d validRandom_halves n, of 2 2 0] by blast
  ultimately show ?thesis
    using d n total ledger validRandom_halves by (simp add: list_all_iff)
qed

section \<open>Properties of the escaping\<close>

lemma replaceUnit_Cons:
  "replaceUnit u r (x # s) = (if x = u then r else [x]) @ replaceUnit u r s"
  by (simp add: replaceUnit_def)

lemma replaceUnit_append:
  "replaceUnit u r (a @ b) = replaceUnit u r a @ replaceUnit u r b"
  by (simp add: replaceUnit_def)

lemma replaceUnit_Nil: "replaceUnit u r [] = []"
  by (simp add: replaceUnit_def)

lemma escapeString_Nil: "escapeString [] = []"
  by (simp add: escapeString_def replaceUnit_Nil)

lemma escapeString_single: "escapeString [u] = escapeUnit u"
  by (simp add: escapeString_def escapeUnit_def replaceUnit_def units_def)

lemma escapeString_append: "escapeString (a @ b) = escapeString a @ escapeString b"
  by (simp add: escapeString_def replaceUnit_append)

lemma escapeString_units: "escapeString s = concat (map escapeUnit s)"
proof (induction s)
  case Nil
  show ?case by (simp add: escapeString_Nil)
next
  case (Cons u s)
  have "escapeString (u # s) = escapeString ([u] @ s)" by simp
  also have "\<dots> = escapeUnit u @ escapeString s"
    by (simp only: escapeString_append escapeString_single)
  finally show ?case using Cons.IH by simp
qed

lemma escapeHtml_units: "escapeHtml s = concat (map escapeUnit s)"
  by (simp add: escapeHtml_def innerHTML_def setTextContent_def createElement_def
      serializeChild_def rawTextElements_def escapeString_units)

lemma escapeUnit_no_angle: "0x3C \<notin> set (escapeUnit u) \<and> 0x3E \<notin> set (escapeUnit u)"
  by (simp add: escapeUnit_def units_def)

lemma decodeRefs_escapeUnit: "decodeRefs (escapeUnit u @ r) = u # decodeRefs r"
  by (simp add: escapeUnit_def units_def)

lemma decodeRefs_escape: "decodeRefs (concat (map escapeUnit s)) = s"
  by (induction s) (simp_all add: decodeRefs_escapeUnit)


text \<open>
  Claim C2, as stated, fails: the serialisation of a text node does not escape the
  quote characters. A string of one quotation mark is returned as it is, and in the
  specification's own example both quotation marks are still there.
\<close>

theorem escapeHtml_quote_counterexample:
  "escapeHtml quotationMark = quotationMark
   \<and> escapeHtml specExample
       = units (''&lt;b&gt;'' @ [CHR 0x22] @ ''x'' @ [CHR 0x22] @ ''&lt;/b&gt;'')
   \<and> 0x22 \<in> set (escapeHtml specExample)
   \<and> \<not> noMarkupCharacters (escapeHtml specExample)"
proof -
  have a: "escapeHtml quotationMark = quotationMark"
    by (simp add: escapeHtml_units quotationMark_def escapeUnit_def)
  have b: "escapeHtml specExample
       = units (''&lt;b&gt;'' @ [CHR 0x22] @ ''x'' @ [CHR 0x22] @ ''&lt;/b&gt;'')"
    by (simp add: escapeHtml_units specExample_def escapeUnit_def units_def)
  have c: "0x22 \<in> set (escapeHtml specExample)"
    by (simp add: b units_def)
  from a b c show ?thesis
    by (simp add: noMarkupCharacters_def)
qed

text \<open>
  Claim C2, amended: for every input string, \<open>escapeHtml\<close> returns the string with
  each \<^verbatim>\<open>&\<close>, \<^verbatim>\<open><\<close>, \<^verbatim>\<open>>\<close> and U+00A0 replaced by \<^verbatim>\<open>&amp;\<close>, \<^verbatim>\<open>&lt;\<close>, \<^verbatim>\<open>&gt;\<close> and
  \<^verbatim>\<open>&nbsp;\<close>, and every other code unit, the two quote characters among them, as it is.
  The result contains no literal \<^verbatim>\<open><\<close> and no literal \<^verbatim>\<open>>\<close>, and decoding its
  character references gives the original string back.
\<close>

theorem escapeHtml_amended:
  "escapeHtml str = concat (map escapeUnit str)
   \<and> 0x3C \<notin> set (escapeHtml str) \<and> 0x3E \<notin> set (escapeHtml str)
   \<and> decodeRefs (escapeHtml str) = str"
proof (intro conjI)
  show "escapeHtml str = concat (map escapeUnit str)"
    by (rule escapeHtml_units)
  show "0x3C \<notin> set (escapeHtml str)"
    by (simp add: escapeHtml_units escapeUnit_no_angle)
  show "0x3E \<notin> set (escapeHtml str)"
    by (simp add: escapeHtml_units escapeUnit_no_angle)
  show "decodeRefs (escapeHtml str) = str"
    by (simp only: escapeHtml_units decodeRefs_escape)
qed

theorem escapeHtml_amended_witness:
  "escapeHtml specExample = concat (map escapeUnit specExample)
   \<and> 0x3C \<notin> set (escapeHtml specExample) \<and> 0x3E \<notin> set (escapeHtml specExample)
   \<and> decodeRefs (escapeHtml specExample) = specExample
   \<and> 0x3C \<in> set specExample"
proof -
  have "0x3C \<in> set specExample"
    by (simp add: specExample_def units_def)
  with escapeHtml_amended [of specExample] show ?thesis
    by (intro conjI) (elim conjE, assumption)+
qed

end
